theory Spec2Isabelle
  imports Complex_Main
begin

section \<open>Data model of \<open>src/components/DigitalTwinSimulation.tsx\<close>\<close>

text \<open>
  The component keeps three numeric levels. A JavaScript number is a double; every amount
  the component ever adds or subtracts is an integer or one half, and the levels are
  clamped to the interval from 0 to 100, so every value it can reach is a multiple of one
  half in that interval (lemma \<open>run_half_integral\<close> below) and the double arithmetic is
  exact on them. The levels are therefore modelled as rationals.
\<close>

record Chemistry =
  Dopamine :: rat
  Oxytocin :: rat
  Cortisol :: rat

text \<open>The field \<open>id\<close> of the source is named \<open>id_num\<close>, \<open>id\<close> being the identity of HOL.\<close>

record LogEntry =
  id_num :: nat
  event :: string
  data :: Chemistry
  timestamp :: string

text \<open>The source's type \<open>Chemistry & { time: string }\<close>.\<close>

record HistoryPoint = Chemistry +
  time :: string

text \<open>
  An entry of the recommendation list. The field \<open>msg\<close> of the source is a fixed Thai
  sentence for each \<open>type\<close>, shown to the user only; it is left out.
\<close>

record Recommendation =
  type :: string
  color :: string

text \<open>
  The state of one mounted component: the four \<open>useState\<close> cells, the two \<open>useRef\<close>
  cells, and the part of the browser the component talks to, which is the set of active
  interval timers. A timer is its handle together with the value of \<open>chemistry\<close> that the
  callback closed over when the effect installed it (the callback reads nothing else of
  the render it was created in). \<open>nextHandle\<close> is the browser's counter of timer handles;
  handles are positive.
\<close>

record Engine =
  isRunning :: bool
  chemistry :: Chemistry
  logs :: "LogEntry list"
  history :: "HistoryPoint list"
  logIdRef :: nat
  intervalRef :: "nat option"
  timers :: "(nat \<times> Chemistry) list"
  nextHandle :: nat

section \<open>JavaScript library functions used by the component\<close>

text \<open>\<open>Math.max(0, Math.min(100, x))\<close>, as written at lines 87 to 89.\<close>

definition clamp :: "rat \<Rightarrow> rat" where
  "clamp x = max 0 (min 100 x)"

text \<open>\<open>s.replace(a, b)\<close> with a string pattern replaces the first occurrence only.\<close>

fun replace_first :: "char \<Rightarrow> char \<Rightarrow> string \<Rightarrow> string" where
  "replace_first a b [] = []"
| "replace_first a b (c # cs) = (if c = a then b # cs else c # replace_first a b cs)"

text \<open>\<open>s.toUpperCase()\<close> on ASCII text: the letters a to z move down by 32.\<close>

definition upper_char :: "char \<Rightarrow> char" where
  "upper_char c =
     (let n = (of_char c :: nat) in if 97 \<le> n \<and> n \<le> 122 then char_of (n - 32) else c)"

definition toUpperCase :: "string \<Rightarrow> string" where
  "toUpperCase s = map upper_char s"

text \<open>\<open>xs.slice(-n)\<close>: the last \<open>n\<close> elements, the whole array when it is shorter.\<close>

definition slice_last :: "nat \<Rightarrow> 'a list \<Rightarrow> 'a list" where
  "slice_last n xs = drop (length xs - n) xs"

text \<open>\<open>xs.slice(0, n)\<close>: the first \<open>n\<close> elements.\<close>

definition slice_first :: "nat \<Rightarrow> 'a list \<Rightarrow> 'a list" where
  "slice_first n xs = take n xs"

section \<open>The component\<close>

text \<open>The initial values of the \<open>useState\<close> and \<open>useRef\<close> cells (lines 19 to 29).\<close>

definition initial :: Engine where
  "initial =
     \<lparr>isRunning = False,
      chemistry = \<lparr>Dopamine = 50, Oxytocin = 50, Cortisol = 20\<rparr>,
      logs = [],
      history = [],
      logIdRef = 0,
      intervalRef = None,
      timers = [],
      nextHandle = 1\<rparr>"

text \<open>The \<open>useMemo\<close> body of lines 31 to 62, as a function of \<open>chemistry\<close>.\<close>

definition recommendations :: "Chemistry \<Rightarrow> Recommendation list" where
  "recommendations c =
     (let l1 = (if Cortisol c > 60
                then [\<lparr>type = ''STRESS ALERT'',
                       color = ''text-red-400 border-red-900/50 bg-red-950/20''\<rparr>]
                else []);
          l2 = (if Oxytocin c < 40
                then l1 @ [\<lparr>type = ''BONDING DEFICIT'',
                            color = ''text-purple-400 border-purple-900/50 bg-purple-950/20''\<rparr>]
                else l1);
          l3 = (if Dopamine c < 30
                then l2 @ [\<lparr>type = ''LOW REWARD'',
                            color = ''text-yellow-400 border-yellow-900/50 bg-yellow-950/20''\<rparr>]
                else l2)
      in if length l3 = 0
         then l3 @ [\<lparr>type = ''OPTIMAL STATE'',
                     color = ''text-emerald-400 border-emerald-900/50 bg-emerald-950/20''\<rparr>]
         else l3)"

text \<open>
  The updater that \<open>updateBioData\<close> hands to \<open>setChemistry\<close> (lines 65 to 91): the
  chain of comparisons on the interaction string, with no branch for any other string,
  then the clamped copy.
\<close>

definition updateBioData :: "string \<Rightarrow> Chemistry \<Rightarrow> Chemistry" where
  "updateBioData interactionType prev =
     (let next =
        (if interactionType = ''physical_touch''
         then prev\<lparr>Oxytocin := Oxytocin prev + 15,
                   Cortisol := Cortisol prev - 5,
                   Dopamine := Dopamine prev + 5\<rparr>
         else if interactionType = ''argument''
         then prev\<lparr>Cortisol := Cortisol prev + 20,
                   Dopamine := Dopamine prev - 10,
                   Oxytocin := Oxytocin prev - 8\<rparr>
         else if interactionType = ''deep_talk''
         then prev\<lparr>Oxytocin := Oxytocin prev + 12,
                   Dopamine := Dopamine prev + 8,
                   Cortisol := Cortisol prev - 3\<rparr>
         else if interactionType = ''none''
         then prev\<lparr>Dopamine := (if Dopamine prev > 50 then Dopamine prev - 1/2
                                  else Dopamine prev + 1/2),
                   Oxytocin := (if Oxytocin prev > 50 then Oxytocin prev - 1/2
                                  else Oxytocin prev + 1/2),
                   Cortisol := (if Cortisol prev > 20 then Cortisol prev - 1/2
                                  else Cortisol prev + 1/2)\<rparr>
         else prev)
      in \<lparr>Dopamine = clamp (Dopamine next),
          Oxytocin = clamp (Oxytocin next),
          Cortisol = clamp (Cortisol next)\<rparr>)"

text \<open>The array the interval callback draws the interaction from (line 97).\<close>

definition events :: "string list" where
  "events = [''physical_touch'', ''argument'', ''deep_talk'', ''none'', ''none'']"

text \<open>
  The body of the interval callback (lines 97 to 117). \<open>chem\<close> is the \<open>chemistry\<close> the
  callback closed over, \<open>ev\<close> the element of \<open>events\<close> that the random draw selected and
  \<open>ts\<close> the string \<open>toLocaleTimeString\<close> returned. The three setters take updater
  functions, so each applies to the latest value of its own cell; the log updater also
  increments \<open>logIdRef\<close>.
\<close>

definition interval_callback :: "Chemistry \<Rightarrow> string \<Rightarrow> string \<Rightarrow> Engine \<Rightarrow> Engine" where
  "interval_callback chem ev ts e =
     (let newLog = \<lparr>id_num = logIdRef e,
                    event = toUpperCase (replace_first CHR ''_'' CHR '' '' ev),
                    data = chem,
                    timestamp = ts\<rparr>;
          newPoint = \<lparr>Dopamine = Dopamine chem, Oxytocin = Oxytocin chem,
                      Cortisol = Cortisol chem, time = ts\<rparr>
      in e\<lparr>chemistry := updateBioData ev (chemistry e),
           logs := slice_first 5 (newLog # logs e),
           logIdRef := logIdRef e + 1,
           history := slice_last 15 (history e @ [newPoint])\<rparr>)"

text \<open>The browser's \<open>clearInterval\<close> and \<open>setInterval\<close> on the set of active timers.\<close>

definition clearInterval :: "nat \<Rightarrow> Engine \<Rightarrow> Engine" where
  "clearInterval h e = e\<lparr>timers := filter (\<lambda>t. fst t \<noteq> h) (timers e)\<rparr>"

definition setInterval :: "Chemistry \<Rightarrow> Engine \<Rightarrow> nat \<times> Engine" where
  "setInterval chem e =
     (nextHandle e, e\<lparr>timers := timers e @ [(nextHandle e, chem)],
                       nextHandle := nextHandle e + 1\<rparr>)"

text \<open>\<open>if (intervalRef.current)\<close>: the cell holds a handle and the handle is not 0.\<close>

definition truthy :: "nat option \<Rightarrow> bool" where
  "truthy r = (case r of None \<Rightarrow> False | Some h \<Rightarrow> h \<noteq> 0)"

text \<open>The function the effect returns (lines 123 to 125), run before the effect runs again.\<close>

definition effect_cleanup :: "Engine \<Rightarrow> Engine" where
  "effect_cleanup e =
     (if truthy (intervalRef e) then clearInterval (the (intervalRef e)) e else e)"

text \<open>The effect body (lines 95 to 121), on the values of the render that runs it.\<close>

definition effect_body :: "Engine \<Rightarrow> Engine" where
  "effect_body e =
     (if isRunning e
      then (let (h, e') = setInterval (chemistry e) e in e'\<lparr>intervalRef := Some h\<rparr>)
      else if truthy (intervalRef e) then clearInterval (the (intervalRef e)) e
      else e)"

text \<open>
  A render after which the effect runs again: the cleanup of the previous run, then the
  body. React runs it when \<open>isRunning\<close> or \<open>chemistry\<close> differs from the previous render;
  \<open>chemistry\<close> is a fresh object after every callback, so it runs after each one.
\<close>

definition rerender :: "Engine \<Rightarrow> Engine" where
  "rerender e = effect_body (effect_cleanup e)"

text \<open>
  \<open>setIsRunning b\<close> followed by the render. React skips the render when the cell already
  holds \<open>b\<close>; the model runs cleanup and effect in that case too, which covers both.
\<close>

definition setIsRunning :: "bool \<Rightarrow> Engine \<Rightarrow> Engine" where
  "setIsRunning b e = rerender (e\<lparr>isRunning := b\<rparr>)"

definition start :: "Engine \<Rightarrow> Engine" where
  "start e = setIsRunning True e"

definition stop :: "Engine \<Rightarrow> Engine" where
  "stop e = setIsRunning False e"

text \<open>The button's \<open>onClick\<close> (line 148).\<close>

definition toggle :: "Engine \<Rightarrow> Engine" where
  "toggle e = setIsRunning (\<not> isRunning e) e"

text \<open>
  The timer with handle \<open>h\<close> fires: nothing happens when no such timer is active,
  otherwise its callback runs and the component renders.
\<close>

definition tick :: "nat \<Rightarrow> string \<Rightarrow> string \<Rightarrow> Engine \<Rightarrow> Engine" where
  "tick h ev ts e =
     (case map_of (timers e) h of
        None \<Rightarrow> e
      | Some chem \<Rightarrow> rerender (interval_callback chem ev ts e))"

text \<open>What can happen to a mounted component, and a run of such happenings.\<close>

datatype action = Start | Stop | Toggle | Tick nat string string

fun step :: "action \<Rightarrow> Engine \<Rightarrow> Engine" where
  "step Start e = start e"
| "step Stop e = stop e"
| "step Toggle e = toggle e"
| "step (Tick h ev ts) e = tick h ev ts e"

fun run :: "Engine \<Rightarrow> action list \<Rightarrow> Engine" where
  "run e [] = e"
| "run e (a # as) = run (step a e) as"

section \<open>Notions used to state the properties\<close>

text \<open>
  The timers the component can still cancel: every active timer is the one whose handle
  is in \<open>intervalRef\<close>. \<open>consistent\<close> is the invariant of the mounted component: while
  running there is exactly one active timer, it is the one in \<open>intervalRef\<close> and its
  callback closed over the current \<open>chemistry\<close>; while idle there is none.
\<close>

definition owned :: "Engine \<Rightarrow> bool" where
  "owned e =
     ((\<forall>t \<in> set (timers e). intervalRef e = Some (fst t) \<and> fst t \<noteq> 0) \<and> 0 < nextHandle e)"

definition consistent :: "Engine \<Rightarrow> bool" where
  "consistent e =
     (timers e = (if isRunning e then [(the (intervalRef e), chemistry e)] else []) \<and>
      (isRunning e \<longrightarrow> truthy (intervalRef e)) \<and> 0 < nextHandle e)"

text \<open>A level that is a multiple of one half.\<close>

definition half_integral :: "rat \<Rightarrow> bool" where
  "half_integral x = (2 * x = of_int \<lfloor>2 * x\<rfloor>)"

definition half_chem :: "Chemistry \<Rightarrow> bool" where
  "half_chem c = (half_integral (Dopamine c) \<and> half_integral (Oxytocin c) \<and> half_integral (Cortisol c))"

text \<open>
  Whether an action makes a callback run, and the history points and log entries that a
  run of actions puts into the buffers, in the order of the actions: for each callback
  that runs, the point found at the end of \<open>history\<close> and the entry found at the front
  of \<open>logs\<close> right after it.
\<close>

fun fires :: "action \<Rightarrow> Engine \<Rightarrow> bool" where
  "fires (Tick h ev ts) e = (map_of (timers e) h \<noteq> None)"
| "fires _ e = False"

fun points_of :: "Engine \<Rightarrow> action list \<Rightarrow> HistoryPoint list" where
  "points_of e [] = []"
| "points_of e (a # as) =
     (if fires a e then [last (history (step a e))] else []) @ points_of (step a e) as"

fun entries_of :: "Engine \<Rightarrow> action list \<Rightarrow> LogEntry list" where
  "entries_of e [] = []"
| "entries_of e (a # as) =
     (if fires a e then [hd (logs (step a e))] else []) @ entries_of (step a e) as"

section \<open>The transition on the chemistry\<close>

lemma clamp_bounds: "0 \<le> clamp x \<and> clamp x \<le> 100"
  by (simp add: clamp_def)

lemma clamp_id: "0 \<le> x \<Longrightarrow> x \<le> 100 \<Longrightarrow> clamp x = x"
  by (simp add: clamp_def)

lemma updateBioData_bounds:
  "0 \<le> Dopamine (updateBioData ev c) \<and> Dopamine (updateBioData ev c) \<le> 100 \<and>
   0 \<le> Oxytocin (updateBioData ev c) \<and> Oxytocin (updateBioData ev c) \<le> 100 \<and>
   0 \<le> Cortisol (updateBioData ev c) \<and> Cortisol (updateBioData ev c) \<le> 100"
  by (simp add: updateBioData_def Let_def clamp_bounds)

text \<open>
  C2: the transition adds the stated amounts and then clamps each level to the interval
  from 0 to 100: physical touch adds 5 to dopamine, 15 to oxytocin and takes 5 from
  cortisol; argument takes 10 from dopamine, 8 from oxytocin and adds 20 to cortisol;
  deep talk adds 8 to dopamine, 12 to oxytocin and takes 3 from cortisol. From 50, 50, 20
  one argument gives 40, 42, 40 and one physical touch gives 55, 65, 15.
\<close>

theorem transition_table:
  "updateBioData ''physical_touch'' c =
     \<lparr>Dopamine = clamp (Dopamine c + 5),
      Oxytocin = clamp (Oxytocin c + 15),
      Cortisol = clamp (Cortisol c - 5)\<rparr> \<and>
   updateBioData ''argument'' c =
     \<lparr>Dopamine = clamp (Dopamine c - 10),
      Oxytocin = clamp (Oxytocin c - 8),
      Cortisol = clamp (Cortisol c + 20)\<rparr> \<and>
   updateBioData ''deep_talk'' c =
     \<lparr>Dopamine = clamp (Dopamine c + 8),
      Oxytocin = clamp (Oxytocin c + 12),
      Cortisol = clamp (Cortisol c - 3)\<rparr> \<and>
   clamp x = (if x < 0 then 0 else if 100 < x then 100 else x) \<and>
   updateBioData ''argument'' \<lparr>Dopamine = 50, Oxytocin = 50, Cortisol = 20\<rparr>
     = \<lparr>Dopamine = 40, Oxytocin = 42, Cortisol = 40\<rparr> \<and>
   updateBioData ''physical_touch'' \<lparr>Dopamine = 50, Oxytocin = 50, Cortisol = 20\<rparr>
     = \<lparr>Dopamine = 55, Oxytocin = 65, Cortisol = 15\<rparr>"
  by (simp add: updateBioData_def clamp_def)

text \<open>
  One tick without interaction moves a level that is exactly at its baseline away from
  it, by one half upwards; the next one brings it back.
\<close>

lemma none_from_baseline:
  "updateBioData ''none'' \<lparr>Dopamine = 50, Oxytocin = 50, Cortisol = 20\<rparr>
     = \<lparr>Dopamine = 101/2, Oxytocin = 101/2, Cortisol = 41/2\<rparr>"
  "updateBioData ''none'' \<lparr>Dopamine = 101/2, Oxytocin = 101/2, Cortisol = 41/2\<rparr>
     = \<lparr>Dopamine = 50, Oxytocin = 50, Cortisol = 20\<rparr>"
  by (simp_all add: updateBioData_def clamp_def)

text \<open>
  C4: twenty transitions without interaction, one after the other, from dopamine 50,
  oxytocin 50 and cortisol 20 end in that same state; the transition without interaction
  takes one half from a level that is strictly above its baseline (50, 50 and 20) and
  adds one half to it otherwise, then clamps.
\<close>

theorem twenty_none_ticks:
  "(updateBioData ''none'' ^^ 20) \<lparr>Dopamine = 50, Oxytocin = 50, Cortisol = 20\<rparr>
     = \<lparr>Dopamine = 50, Oxytocin = 50, Cortisol = 20\<rparr> \<and>
   updateBioData ''none'' c =
     \<lparr>Dopamine = clamp (if Dopamine c > 50 then Dopamine c - 1/2 else Dopamine c + 1/2),
      Oxytocin = clamp (if Oxytocin c > 50 then Oxytocin c - 1/2 else Oxytocin c + 1/2),
      Cortisol = clamp (if Cortisol c > 20 then Cortisol c - 1/2 else Cortisol c + 1/2)\<rparr>"
proof
  show "(updateBioData ''none'' ^^ 20) \<lparr>Dopamine = 50, Oxytocin = 50, Cortisol = 20\<rparr>
          = \<lparr>Dopamine = 50, Oxytocin = 50, Cortisol = 20\<rparr>"
    by (simp add: numeral_eq_Suc none_from_baseline)
next
  show "updateBioData ''none'' c =
     \<lparr>Dopamine = clamp (if Dopamine c > 50 then Dopamine c - 1/2 else Dopamine c + 1/2),
      Oxytocin = clamp (if Oxytocin c > 50 then Oxytocin c - 1/2 else Oxytocin c + 1/2),
      Cortisol = clamp (if Cortisol c > 20 then Cortisol c - 1/2 else Cortisol c + 1/2)\<rparr>"
    by (simp add: updateBioData_def)
qed

section \<open>The recommendations\<close>

text \<open>
  C6: the recommendation list is a function of the chemistry alone, is never empty, and
  consists, in this order, of the stress alert exactly when cortisol is above 60, the
  bonding deficit exactly when oxytocin is below 40, the low reward exactly when dopamine
  is below 30, and the optimal state exactly when none of the three holds, in which case
  it is the only entry.
\<close>

theorem recommendations_rules:
  "recommendations c =
     (if Cortisol c > 60
      then [\<lparr>type = ''STRESS ALERT'',
             color = ''text-red-400 border-red-900/50 bg-red-950/20''\<rparr>] else []) @
     (if Oxytocin c < 40
      then [\<lparr>type = ''BONDING DEFICIT'',
             color = ''text-purple-400 border-purple-900/50 bg-purple-950/20''\<rparr>] else []) @
     (if Dopamine c < 30
      then [\<lparr>type = ''LOW REWARD'',
             color = ''text-yellow-400 border-yellow-900/50 bg-yellow-950/20''\<rparr>] else []) @
     (if Cortisol c \<le> 60 \<and> Oxytocin c \<ge> 40 \<and> Dopamine c \<ge> 30
      then [\<lparr>type = ''OPTIMAL STATE'',
             color = ''text-emerald-400 border-emerald-900/50 bg-emerald-950/20''\<rparr>] else []) \<and>
   recommendations c \<noteq> [] \<and>
   recommendations \<lparr>Dopamine = 30, Oxytocin = 40, Cortisol = 60\<rparr>
     = [\<lparr>type = ''OPTIMAL STATE'',
         color = ''text-emerald-400 border-emerald-900/50 bg-emerald-950/20''\<rparr>]"
  by (simp add: recommendations_def Let_def)

section \<open>Scenarios\<close>

text \<open>
  C3: the argument transition on the state with all three levels 0 gives dopamine 0,
  oxytocin 0 and cortisol 20.
\<close>

theorem argument_from_zero:
  "updateBioData ''argument'' \<lparr>Dopamine = 0, Oxytocin = 0, Cortisol = 0\<rparr>
     = \<lparr>Dopamine = 0, Oxytocin = 0, Cortisol = 20\<rparr>"
  by (simp add: updateBioData_def clamp_def)

text \<open>
  C10: before any start or tick the component holds dopamine 50, oxytocin 50 and
  cortisol 20, is not running, has an empty log, an empty history, and the next log id 0.
\<close>

theorem initial_state:
  "chemistry initial = \<lparr>Dopamine = 50, Oxytocin = 50, Cortisol = 20\<rparr> \<and>
   isRunning initial = False \<and>
   logs initial = [] \<and>
   history initial = [] \<and>
   logIdRef initial = 0 \<and>
   run initial [] = initial"
  by (simp add: initial_def)

section \<open>The effect and its timer\<close>

lemma consistent_owned: "consistent e \<Longrightarrow> owned e"
  by (auto simp: consistent_def owned_def truthy_def split: if_splits option.splits)

lemma cleanup_owned: "owned e \<Longrightarrow> timers (effect_cleanup e) = []"
  by (cases "timers e")
     (auto simp: owned_def effect_cleanup_def clearInterval_def truthy_def filter_empty_conv)

lemma cleanup_fields:
  "isRunning (effect_cleanup e) = isRunning e"
  "chemistry (effect_cleanup e) = chemistry e"
  "logs (effect_cleanup e) = logs e"
  "history (effect_cleanup e) = history e"
  "logIdRef (effect_cleanup e) = logIdRef e"
  "intervalRef (effect_cleanup e) = intervalRef e"
  "nextHandle (effect_cleanup e) = nextHandle e"
  by (simp_all add: effect_cleanup_def clearInterval_def)

lemma body_fields:
  "isRunning (effect_body e) = isRunning e"
  "chemistry (effect_body e) = chemistry e"
  "logs (effect_body e) = logs e"
  "history (effect_body e) = history e"
  "logIdRef (effect_body e) = logIdRef e"
  by (simp_all add: effect_body_def clearInterval_def setInterval_def)

lemma rerender_fields:
  "isRunning (rerender e) = isRunning e"
  "chemistry (rerender e) = chemistry e"
  "logs (rerender e) = logs e"
  "history (rerender e) = history e"
  "logIdRef (rerender e) = logIdRef e"
  by (simp_all add: rerender_def body_fields cleanup_fields)

lemma rerender_consistent: "owned e \<Longrightarrow> consistent (rerender e)"
proof -
  assume o: "owned e"
  let ?c = "effect_cleanup e"
  have t: "timers ?c = []" using o by (rule cleanup_owned)
  have n: "0 < nextHandle ?c" using o by (simp add: cleanup_fields owned_def)
  show ?thesis
    unfolding rerender_def consistent_def
    using t n
    by (simp add: effect_body_def setInterval_def clearInterval_def truthy_def)
qed

lemma callback_owned: "owned e \<Longrightarrow> owned (interval_callback c ev ts e)"
  by (simp add: owned_def interval_callback_def Let_def)

lemma setIsRunning_consistent: "consistent e \<Longrightarrow> consistent (setIsRunning b e)"
  unfolding setIsRunning_def
  by (rule rerender_consistent) (use consistent_owned[of e] in \<open>simp add: owned_def\<close>)

lemma tick_consistent: "consistent e \<Longrightarrow> consistent (tick h ev ts e)"
  unfolding tick_def
  by (simp split: option.splits add: rerender_consistent callback_owned consistent_owned)

lemma step_consistent: "consistent e \<Longrightarrow> consistent (step a e)"
  by (cases a) (simp_all add: start_def stop_def toggle_def setIsRunning_consistent tick_consistent)

lemma run_invariant:
  assumes "P e" and "\<And>a e. P e \<Longrightarrow> P (step a e)"
  shows "P (run e as)"
  using assms(1)
proof (induction as arbitrary: e)
  case Nil then show ?case by simp
next
  case (Cons a as) then show ?case by (simp add: assms(2))
qed

lemma initial_consistent: "consistent initial"
  by (simp add: consistent_def initial_def)

lemma run_consistent: "consistent (run initial as)"
  by (rule run_invariant[where P = consistent]) (simp_all add: initial_consistent step_consistent)

lemma tick_running:
  "consistent e \<Longrightarrow> isRunning e \<Longrightarrow>
     tick (the (intervalRef e)) ev ts e = rerender (interval_callback (chemistry e) ev ts e)"
  by (simp add: tick_def consistent_def)

lemma tick_idle: "consistent e \<Longrightarrow> \<not> isRunning e \<Longrightarrow> tick h ev ts e = e"
  by (simp add: tick_def consistent_def)

lemma stop_idle: "consistent e \<Longrightarrow> \<not> isRunning e \<Longrightarrow> stop e = e"
  by (simp add: stop_def setIsRunning_def rerender_def effect_cleanup_def effect_body_def
      clearInterval_def consistent_def)

section \<open>The levels stay between 0 and 100\<close>

lemma step_chemistry_bounds:
  "0 \<le> Dopamine (chemistry e) \<and> Dopamine (chemistry e) \<le> 100 \<and>
   0 \<le> Oxytocin (chemistry e) \<and> Oxytocin (chemistry e) \<le> 100 \<and>
   0 \<le> Cortisol (chemistry e) \<and> Cortisol (chemistry e) \<le> 100 \<Longrightarrow>
   0 \<le> Dopamine (chemistry (step a e)) \<and> Dopamine (chemistry (step a e)) \<le> 100 \<and>
   0 \<le> Oxytocin (chemistry (step a e)) \<and> Oxytocin (chemistry (step a e)) \<le> 100 \<and>
   0 \<le> Cortisol (chemistry (step a e)) \<and> Cortisol (chemistry (step a e)) \<le> 100"
proof (cases a)
  case (Tick h ev ts)
  assume b: "0 \<le> Dopamine (chemistry e) \<and> Dopamine (chemistry e) \<le> 100 \<and>
   0 \<le> Oxytocin (chemistry e) \<and> Oxytocin (chemistry e) \<le> 100 \<and>
   0 \<le> Cortisol (chemistry e) \<and> Cortisol (chemistry e) \<le> 100"
  show ?thesis
  proof (cases "map_of (timers e) h")
    case None
    with Tick b show ?thesis by (simp add: tick_def)
  next
    case (Some chem)
    have "chemistry (step a e) = updateBioData ev (chemistry e)"
      using Tick Some by (simp add: tick_def rerender_fields interval_callback_def Let_def)
    then show ?thesis using updateBioData_bounds[of ev "chemistry e"] by simp
  qed
qed (simp_all add: start_def stop_def toggle_def setIsRunning_def rerender_fields)

text \<open>
  C1: from the initial state, after any sequence of starts, stops, button clicks and
  timer firings with any interaction string, each of dopamine, oxytocin and cortisol is
  at least 0 and at most 100.
\<close>

theorem chemistry_in_range:
  "0 \<le> Dopamine (chemistry (run initial as)) \<and> Dopamine (chemistry (run initial as)) \<le> 100 \<and>
   0 \<le> Oxytocin (chemistry (run initial as)) \<and> Oxytocin (chemistry (run initial as)) \<le> 100 \<and>
   0 \<le> Cortisol (chemistry (run initial as)) \<and> Cortisol (chemistry (run initial as)) \<le> 100"
  by (rule run_invariant[where P = "\<lambda>e. 0 \<le> Dopamine (chemistry e) \<and> Dopamine (chemistry e) \<le> 100 \<and>
   0 \<le> Oxytocin (chemistry e) \<and> Oxytocin (chemistry e) \<le> 100 \<and>
   0 \<le> Cortisol (chemistry e) \<and> Cortisol (chemistry e) \<le> 100"])
     (simp add: initial_def, rule step_chemistry_bounds)

section \<open>The levels are multiples of one half\<close>

lemma half_integral_iff: "half_integral x \<longleftrightarrow> 2 * x \<in> \<int>"
  unfolding half_integral_def
  by (metis Ints_of_int of_int_floor_cancel Ints_cases)

lemma half_integral_clamp: "half_integral x \<Longrightarrow> half_integral (clamp x)"
  by (auto simp: half_integral_iff clamp_def max_def min_def)

lemma half_integral_shift:
  "half_integral x \<Longrightarrow> half_integral (x + numeral n)"
  "half_integral x \<Longrightarrow> half_integral (x - numeral n)"
  "half_integral x \<Longrightarrow> half_integral (x + 1/2)"
  "half_integral x \<Longrightarrow> half_integral (x - 1/2)"
  by (simp_all add: half_integral_iff algebra_simps)


lemma updateBioData_half: "half_chem c \<Longrightarrow> half_chem (updateBioData ev c)"
  by (simp add: half_chem_def updateBioData_def Let_def half_integral_clamp half_integral_shift)

lemma step_chemistry:
  "chemistry (step a e) = chemistry e \<or> (\<exists>ev. chemistry (step a e) = updateBioData ev (chemistry e))"
proof (cases a)
  case (Tick h ev ts)
  then show ?thesis
    by (cases "map_of (timers e) h")
       (auto simp: tick_def rerender_fields interval_callback_def Let_def)
qed (simp_all add: start_def stop_def toggle_def setIsRunning_def rerender_fields)

lemma run_half_integral: "half_chem (chemistry (run initial as))"
proof (rule run_invariant[where P = "\<lambda>e. half_chem (chemistry e)"])
  show "half_chem (chemistry initial)"
    by (simp add: initial_def half_chem_def half_integral_def)
next
  fix a and e :: Engine assume "half_chem (chemistry e)"
  then show "half_chem (chemistry (step a e))"
    using step_chemistry[of a e] by (auto simp: updateBioData_half)
qed

section \<open>The two buffers\<close>

lemma slice_last_length: "length (slice_last n xs) \<le> n"
  by (simp add: slice_last_def)

lemma slice_last_short: "length xs \<le> n \<Longrightarrow> slice_last n xs = xs"
  by (simp add: slice_last_def)

lemma slice_last_append: "slice_last n (slice_last n xs @ ys) = slice_last n (xs @ ys)"
  by (cases "n \<le> length xs") (simp_all add: slice_last_def add.commute)

lemma slice_first_append: "slice_first n (xs @ slice_first n ys) = slice_first n (xs @ ys)"
  by (simp add: slice_first_def)

lemma slice_last_snoc:
  "length xs \<le> n \<Longrightarrow> 0 < n \<Longrightarrow>
   slice_last n (xs @ [x]) = (if length xs < n then xs else tl xs) @ [x]"
  by (cases xs) (auto simp: slice_last_def)

lemma slice_first_cons:
  "length xs \<le> n \<Longrightarrow> 0 < n \<Longrightarrow>
   slice_first n (x # xs) = x # (if length xs < n then xs else butlast xs)"
  by (cases n) (auto simp: slice_first_def butlast_conv_take)

lemma step_history:
  "history (step a e) =
     (if fires a e then slice_last 15 (history e @ [last (history (step a e))]) else history e)"
proof (cases a)
  case (Tick h ev ts)
  then show ?thesis
    by (cases "map_of (timers e) h")
       (auto simp: tick_def rerender_fields interval_callback_def Let_def slice_last_def)
qed (simp_all add: start_def stop_def toggle_def setIsRunning_def rerender_fields)

lemma step_logs:
  "logs (step a e) =
     (if fires a e then slice_first 5 (hd (logs (step a e)) # logs e) else logs e)"
proof (cases a)
  case (Tick h ev ts)
  then show ?thesis
    by (cases "map_of (timers e) h")
       (auto simp: tick_def rerender_fields interval_callback_def Let_def slice_first_def)
qed (simp_all add: start_def stop_def toggle_def setIsRunning_def rerender_fields)

lemma run_history:
  assumes "length (history e) \<le> 15"
  shows "history (run e as) = slice_last 15 (history e @ points_of e as)"
  using assms
proof (induction as arbitrary: e)
  case Nil
  then show ?case by (simp add: slice_last_short)
next
  case (Cons a as)
  have l: "length (history (step a e)) \<le> 15"
    using Cons.prems by (subst step_history) (simp add: slice_last_length)
  have "history (run e (a # as)) = slice_last 15 (history (step a e) @ points_of (step a e) as)"
    using Cons.IH[OF l] by simp
  also have "\<dots> = slice_last 15 (history e @ points_of e (a # as))"
    by (subst step_history) (simp add: slice_last_append)
  finally show ?case .
qed

lemma run_logs:
  assumes "length (logs e) \<le> 5"
  shows "logs (run e as) = slice_first 5 (rev (entries_of e as) @ logs e)"
  using assms
proof (induction as arbitrary: e)
  case Nil
  then show ?case by (simp add: slice_first_def)
next
  case (Cons a as)
  have l: "length (logs (step a e)) \<le> 5"
    using Cons.prems by (subst step_logs) (simp add: slice_first_def)
  have "logs (run e (a # as)) = slice_first 5 (rev (entries_of (step a e) as) @ logs (step a e))"
    using Cons.IH[OF l] by simp
  also have "\<dots> = slice_first 5 (rev (entries_of e (a # as)) @ logs e)"
    by (subst step_logs) (simp add: slice_first_append)
  finally show ?case .
qed


lemma run_buffer_lengths:
  "length (history (run initial as)) \<le> 15 \<and> length (logs (run initial as)) \<le> 5"
proof (rule run_invariant[where P = "\<lambda>e. length (history e) \<le> 15 \<and> length (logs e) \<le> 5"])
  show "length (history initial) \<le> 15 \<and> length (logs initial) \<le> 5"
    by (simp add: initial_def)
next
  fix a and e :: Engine
  assume b: "length (history e) \<le> 15 \<and> length (logs e) \<le> 5"
  have "length (history (step a e)) \<le> 15"
    using b by (subst step_history) (simp add: slice_last_length)
  moreover have "length (logs (step a e)) \<le> 5"
    using b by (subst step_logs) (simp add: slice_first_def)
  ultimately show "length (history (step a e)) \<le> 15 \<and> length (logs (step a e)) \<le> 5" ..
qed

text \<open>The definitions that evaluate a run on concrete actions.\<close>

lemmas engine_defs =
  initial_def start_def stop_def toggle_def setIsRunning_def rerender_def effect_cleanup_def
  effect_body_def setInterval_def clearInterval_def truthy_def tick_def interval_callback_def
  slice_first_def slice_last_def

lemma tick_running_fields:
  assumes "consistent e" and "isRunning e"
  shows "chemistry (tick (the (intervalRef e)) ev ts e) = updateBioData ev (chemistry e)"
    and "logs (tick (the (intervalRef e)) ev ts e) =
           slice_first 5 (\<lparr>id_num = logIdRef e,
                            event = toUpperCase (replace_first CHR ''_'' CHR '' '' ev),
                            data = chemistry e, timestamp = ts\<rparr> # logs e)"
    and "history (tick (the (intervalRef e)) ev ts e) =
           slice_last 15 (history e @ [\<lparr>Dopamine = Dopamine (chemistry e),
                                         Oxytocin = Oxytocin (chemistry e),
                                         Cortisol = Cortisol (chemistry e), time = ts\<rparr>])"
    and "logIdRef (tick (the (intervalRef e)) ev ts e) = logIdRef e + 1"
  by (simp_all add: tick_running[OF assms] rerender_fields interval_callback_def Let_def)

text \<open>
  C5: after any run from the initial state the history holds at most 15 points and the
  log at most 5 entries; the history is the last 15 of all points appended so far, in
  the order they were appended (oldest first), and the log is the first 5 of all entries
  so far in reverse order of creation (newest first). A tick of the running component
  puts one point at the end of the history, dropping the first one when there were
  already 15, and one entry at the front of the log, dropping the last one when there
  were already 5.
\<close>

theorem buffers_bounded_and_ordered:
  "length (history (run initial as)) \<le> 15 \<and>
   length (logs (run initial as)) \<le> 5 \<and>
   history (run initial as) = slice_last 15 (points_of initial as) \<and>
   logs (run initial as) = slice_first 5 (rev (entries_of initial as)) \<and>
   (isRunning (run initial as) \<longrightarrow>
      (let e = run initial as; e' = tick (the (intervalRef e)) ev ts e in
         history e' = (if length (history e) < 15 then history e else tl (history e))
                        @ [last (history e')] \<and>
         logs e' = hd (logs e')
                     # (if length (logs e) < 5 then logs e else butlast (logs e))))"
proof -
  let ?e = "run initial as"
  have c: "consistent ?e" by (rule run_consistent)
  have l: "length (history ?e) \<le> 15 \<and> length (logs ?e) \<le> 5" by (rule run_buffer_lengths)
  have h: "history ?e = slice_last 15 (points_of initial as)"
    using run_history[of initial as] by (simp add: initial_def)
  have g: "logs ?e = slice_first 5 (rev (entries_of initial as))"
    using run_logs[of initial as] by (simp add: initial_def)
  have t: "history (tick (the (intervalRef ?e)) ev ts ?e) =
             (if length (history ?e) < 15 then history ?e else tl (history ?e))
               @ [last (history (tick (the (intervalRef ?e)) ev ts ?e))] \<and>
           logs (tick (the (intervalRef ?e)) ev ts ?e) =
             hd (logs (tick (the (intervalRef ?e)) ev ts ?e))
               # (if length (logs ?e) < 5 then logs ?e else butlast (logs ?e))"
    if "isRunning ?e"
    using l by (simp add: tick_running_fields[OF c that] slice_last_snoc slice_first_cons)
  show ?thesis using l h g t by (simp add: Let_def)
qed

theorem buffers_bounded_and_ordered_witness:
  "isRunning (run initial [Start, Tick 1 ''argument'' ''12:00:02'']) \<and>
   history (tick 2 ''none'' ''12:00:04'' (run initial [Start, Tick 1 ''argument'' ''12:00:02'']))
     = history (run initial [Start, Tick 1 ''argument'' ''12:00:02''])
         @ [\<lparr>Dopamine = 40, Oxytocin = 42, Cortisol = 40, time = ''12:00:04''\<rparr>] \<and>
   map id_num
     (logs (tick 2 ''none'' ''12:00:04'' (run initial [Start, Tick 1 ''argument'' ''12:00:02''])))
     = [1, 0]"
  using buffers_bounded_and_ordered
          [of "[Start, Tick 1 ''argument'' ''12:00:02'']" "''none''" "''12:00:04''"]
  by (simp add: engine_defs updateBioData_def clamp_def)

section \<open>What a tick records\<close>

lemma event_labels:
  "toUpperCase (replace_first CHR ''_'' CHR '' '' ''physical_touch'') = ''PHYSICAL TOUCH''"
  "toUpperCase (replace_first CHR ''_'' CHR '' '' ''argument'') = ''ARGUMENT''"
  "toUpperCase (replace_first CHR ''_'' CHR '' '' ''deep_talk'') = ''DEEP TALK''"
  "toUpperCase (replace_first CHR ''_'' CHR '' '' ''none'') = ''NONE''"
  by code_simp+

lemma events_labels:
  "map (\<lambda>ev. toUpperCase (replace_first CHR ''_'' CHR '' '' ev)) events
     = [''PHYSICAL TOUCH'', ''ARGUMENT'', ''DEEP TALK'', ''NONE'', ''NONE'']"
  unfolding events_def list.map event_labels by (rule refl)

text \<open>
  A timer callback runs exactly when the component is running and the handle that fires
  is the one in \<open>intervalRef\<close>; then the tick is the callback on the current chemistry.
\<close>

lemma fires_iff:
  "consistent e \<Longrightarrow>
   fires (Tick h ev ts) e = (isRunning e \<and> intervalRef e = Some h)"
  by (auto simp: consistent_def truthy_def split: option.splits)

lemma tick_fires_fields:
  assumes "consistent e" and "fires (Tick h ev ts) e"
  shows "chemistry (tick h ev ts e) = updateBioData ev (chemistry e)"
    and "logs (tick h ev ts e) =
           slice_first 5 (\<lparr>id_num = logIdRef e,
                            event = toUpperCase (replace_first CHR ''_'' CHR '' '' ev),
                            data = chemistry e, timestamp = ts\<rparr> # logs e)"
    and "history (tick h ev ts e) =
           slice_last 15 (history e @ [\<lparr>Dopamine = Dopamine (chemistry e),
                                         Oxytocin = Oxytocin (chemistry e),
                                         Cortisol = Cortisol (chemistry e), time = ts\<rparr>])"
proof -
  have r: "isRunning e" and h: "h = the (intervalRef e)"
    using fires_iff[OF assms(1), of h ev ts] assms(2) by auto
  show "chemistry (tick h ev ts e) = updateBioData ev (chemistry e)"
    unfolding h by (rule tick_running_fields(1)[OF assms(1) r])
  show "logs (tick h ev ts e) =
           slice_first 5 (\<lparr>id_num = logIdRef e,
                            event = toUpperCase (replace_first CHR ''_'' CHR '' '' ev),
                            data = chemistry e, timestamp = ts\<rparr> # logs e)"
    unfolding h by (rule tick_running_fields(2)[OF assms(1) r])
  show "history (tick h ev ts e) =
           slice_last 15 (history e @ [\<lparr>Dopamine = Dopamine (chemistry e),
                                         Oxytocin = Oxytocin (chemistry e),
                                         Cortisol = Cortisol (chemistry e), time = ts\<rparr>])"
    unfolding h by (rule tick_running_fields(3)[OF assms(1) r])
qed

text \<open>
  C7: whichever timer handle fires, in any state reached from the initial one, the log
  entry that the tick creates is at the front of the log and holds the chemistry as it
  was before the transition of this tick, the upper-cased name of the selected
  interaction, the next log id and the timestamp, while the chemistry itself moves on to
  the result of the transition. A handle fires exactly when the component is running and
  the handle is the one in \<open>intervalRef\<close>. The names of the five entries of \<open>events\<close>
  are as listed.
\<close>

theorem log_entry_previous_state:
  "(fires (Tick h ev ts) (run initial as) \<longrightarrow>
     (let e = run initial as; e' = tick h ev ts e in
        logs e' \<noteq> [] \<and>
        hd (logs e') = \<lparr>id_num = logIdRef e,
                        event = toUpperCase (replace_first CHR ''_'' CHR '' '' ev),
                        data = chemistry e,
                        timestamp = ts\<rparr> \<and>
        chemistry e' = updateBioData ev (chemistry e))) \<and>
   fires (Tick h ev ts) (run initial as)
     = (isRunning (run initial as) \<and> intervalRef (run initial as) = Some h) \<and>
   map (\<lambda>ev. toUpperCase (replace_first CHR ''_'' CHR '' '' ev)) events
     = [''PHYSICAL TOUCH'', ''ARGUMENT'', ''DEEP TALK'', ''NONE'', ''NONE'']"
proof (intro conjI impI)
  let ?e = "run initial as"
  have c: "consistent ?e" by (rule run_consistent)
  show "fires (Tick h ev ts) ?e = (isRunning ?e \<and> intervalRef ?e = Some h)"
    using c by (rule fires_iff)
  show "map (\<lambda>ev. toUpperCase (replace_first CHR ''_'' CHR '' '' ev)) events
          = [''PHYSICAL TOUCH'', ''ARGUMENT'', ''DEEP TALK'', ''NONE'', ''NONE'']"
    by (rule events_labels)
  assume f: "fires (Tick h ev ts) ?e"
  show "let e = ?e; e' = tick h ev ts e in
        logs e' \<noteq> [] \<and>
        hd (logs e') = \<lparr>id_num = logIdRef e,
                        event = toUpperCase (replace_first CHR ''_'' CHR '' '' ev),
                        data = chemistry e,
                        timestamp = ts\<rparr> \<and>
        chemistry e' = updateBioData ev (chemistry e)"
    by (simp add: Let_def tick_fires_fields[OF c f] slice_first_def)
qed

theorem log_entry_previous_state_witness:
  "fires (Tick 2 ''deep_talk'' ''12:00:04'')
     (run initial [Start, Tick 1 ''argument'' ''12:00:02'']) \<and>
   \<not> fires (Tick 1 ''deep_talk'' ''12:00:04'')
     (run initial [Start, Tick 1 ''argument'' ''12:00:02'']) \<and>
   hd (logs (tick 2 ''deep_talk'' ''12:00:04''
              (run initial [Start, Tick 1 ''argument'' ''12:00:02''])))
     = \<lparr>id_num = 1, event = ''DEEP TALK'',
        data = \<lparr>Dopamine = 40, Oxytocin = 42, Cortisol = 40\<rparr>,
        timestamp = ''12:00:04''\<rparr> \<and>
   chemistry (tick 2 ''deep_talk'' ''12:00:04''
               (run initial [Start, Tick 1 ''argument'' ''12:00:02'']))
     = \<lparr>Dopamine = 48, Oxytocin = 54, Cortisol = 37\<rparr>"
proof -
  let ?E = "run initial [Start, Tick 1 ''argument'' ''12:00:02'']"
  have f: "fires (Tick 2 ''deep_talk'' ''12:00:04'') ?E"
    and n: "\<not> fires (Tick 1 ''deep_talk'' ''12:00:04'') ?E"
    and l: "logIdRef ?E = 1"
    and c: "chemistry ?E = \<lparr>Dopamine = 40, Oxytocin = 42, Cortisol = 40\<rparr>"
    by (simp_all add: engine_defs updateBioData_def clamp_def)
  have u: "updateBioData ''deep_talk'' \<lparr>Dopamine = 40, Oxytocin = 42, Cortisol = 40\<rparr>
             = \<lparr>Dopamine = 48, Oxytocin = 54, Cortisol = 37\<rparr>"
    by (simp add: updateBioData_def clamp_def)
  show ?thesis
    using log_entry_previous_state
            [of 2 "''deep_talk''" "''12:00:04''" "[Start, Tick 1 ''argument'' ''12:00:02'']"] f n
    by (simp only: Let_def l c u event_labels simp_thms)
qed

text \<open>
  The history point of a tick is not the new state: after the start and one argument
  tick the chemistry is 40, 42, 40, and the only history point holds 50, 50, 20.
\<close>

theorem history_point_not_new_state:
  "history (run initial [Start, Tick 1 ''argument'' ''12:00:02''])
     = [\<lparr>Dopamine = 50, Oxytocin = 50, Cortisol = 20, time = ''12:00:02''\<rparr>] \<and>
   chemistry (run initial [Start, Tick 1 ''argument'' ''12:00:02''])
     = \<lparr>Dopamine = 40, Oxytocin = 42, Cortisol = 40\<rparr> \<and>
   Chemistry.truncate (last (history (run initial [Start, Tick 1 ''argument'' ''12:00:02''])))
     \<noteq> chemistry (run initial [Start, Tick 1 ''argument'' ''12:00:02''])"
  by (simp add: engine_defs updateBioData_def clamp_def Chemistry.truncate_def)

text \<open>
  C8 (amended): whichever timer handle fires, in any state reached from the initial one,
  the history point that the tick appends is the last of the history and holds the
  chemistry as it was before the transition of this tick, which is the snapshot that the
  log entry of the same tick holds, with the same timestamp; the chemistry itself moves
  on to the result of the transition, and that result is what the point of the next
  tick holds. A handle fires exactly when the component is running and the handle is the
  one in \<open>intervalRef\<close>.
\<close>

theorem history_point_previous_state:
  "(fires (Tick h ev ts) (run initial as) \<longrightarrow>
     (let e = run initial as; e' = tick h ev ts e in
        history e' \<noteq> [] \<and>
        last (history e') = \<lparr>Dopamine = Dopamine (chemistry e),
                              Oxytocin = Oxytocin (chemistry e),
                              Cortisol = Cortisol (chemistry e),
                              time = ts\<rparr> \<and>
        Chemistry.truncate (last (history e')) = chemistry e \<and>
        logs e' \<noteq> [] \<and>
        data (hd (logs e')) = Chemistry.truncate (last (history e')) \<and>
        timestamp (hd (logs e')) = time (last (history e')) \<and>
        chemistry e' = updateBioData ev (chemistry e) \<and>
        (fires (Tick h' ev' ts') e' \<longrightarrow>
           Chemistry.truncate (last (history (tick h' ev' ts' e')))
             = updateBioData ev (chemistry e)))) \<and>
   fires (Tick h ev ts) (run initial as)
     = (isRunning (run initial as) \<and> intervalRef (run initial as) = Some h)"
proof (intro conjI impI)
  let ?e = "run initial as"
  let ?e' = "tick h ev ts ?e"
  have c: "consistent ?e" by (rule run_consistent)
  have c': "consistent ?e'" using c by (rule tick_consistent)
  show "fires (Tick h ev ts) ?e = (isRunning ?e \<and> intervalRef ?e = Some h)"
    using c by (rule fires_iff)
  assume f: "fires (Tick h ev ts) ?e"
  have n: "Chemistry.truncate (last (history (tick h' ev' ts' ?e'))) = updateBioData ev (chemistry ?e)"
    if "fires (Tick h' ev' ts') ?e'"
    by (simp add: tick_fires_fields[OF c' that] tick_fires_fields(1)[OF c f]
        slice_last_def Chemistry.truncate_def)
  show "let e = ?e; e' = tick h ev ts e in
        history e' \<noteq> [] \<and>
        last (history e') = \<lparr>Dopamine = Dopamine (chemistry e),
                              Oxytocin = Oxytocin (chemistry e),
                              Cortisol = Cortisol (chemistry e),
                              time = ts\<rparr> \<and>
        Chemistry.truncate (last (history e')) = chemistry e \<and>
        logs e' \<noteq> [] \<and>
        data (hd (logs e')) = Chemistry.truncate (last (history e')) \<and>
        timestamp (hd (logs e')) = time (last (history e')) \<and>
        chemistry e' = updateBioData ev (chemistry e) \<and>
        (fires (Tick h' ev' ts') e' \<longrightarrow>
           Chemistry.truncate (last (history (tick h' ev' ts' e')))
             = updateBioData ev (chemistry e))"
    using n
    by (simp add: Let_def tick_fires_fields[OF c f] slice_last_def slice_first_def
        Chemistry.truncate_def)
qed

theorem history_point_previous_state_witness:
  "fires (Tick 1 ''argument'' ''12:00:02'') (run initial [Start]) \<and>
   fires (Tick 2 ''none'' ''12:00:04'') (tick 1 ''argument'' ''12:00:02'' (run initial [Start])) \<and>
   last (history (tick 1 ''argument'' ''12:00:02'' (run initial [Start])))
     = \<lparr>Dopamine = 50, Oxytocin = 50, Cortisol = 20, time = ''12:00:02''\<rparr> \<and>
   data (hd (logs (tick 1 ''argument'' ''12:00:02'' (run initial [Start]))))
     = \<lparr>Dopamine = 50, Oxytocin = 50, Cortisol = 20\<rparr> \<and>
   chemistry (tick 1 ''argument'' ''12:00:02'' (run initial [Start]))
     = \<lparr>Dopamine = 40, Oxytocin = 42, Cortisol = 40\<rparr> \<and>
   Chemistry.truncate
     (last (history (tick 2 ''none'' ''12:00:04''
                      (tick 1 ''argument'' ''12:00:02'' (run initial [Start])))))
     = \<lparr>Dopamine = 40, Oxytocin = 42, Cortisol = 40\<rparr>"
proof -
  let ?E = "run initial [Start]"
  have f: "fires (Tick 1 ''argument'' ''12:00:02'') ?E"
    and g: "fires (Tick 2 ''none'' ''12:00:04'') (tick 1 ''argument'' ''12:00:02'' ?E)"
    and c: "chemistry ?E = \<lparr>Dopamine = 50, Oxytocin = 50, Cortisol = 20\<rparr>"
    by (simp_all add: engine_defs)
  have u: "updateBioData ''argument'' \<lparr>Dopamine = 50, Oxytocin = 50, Cortisol = 20\<rparr>
             = \<lparr>Dopamine = 40, Oxytocin = 42, Cortisol = 40\<rparr>"
    by (simp add: updateBioData_def clamp_def)
  have t: "Chemistry.truncate \<lparr>Dopamine = 50, Oxytocin = 50, Cortisol = 20, time = ''12:00:02''\<rparr>
             = \<lparr>Dopamine = 50, Oxytocin = 50, Cortisol = 20\<rparr>"
    by (simp add: Chemistry.truncate_def)
  show ?thesis
    using history_point_previous_state
            [of 1 "''argument''" "''12:00:02''" "[Start]" 2 "''none''" "''12:00:04''"] f g
    by (simp only: Let_def c u t Chemistry.simps simp_thms)
qed

section \<open>Stopping an idle component, reading empty buffers\<close>

lemma no_tick_buffers:
  "set as \<subseteq> {Start, Stop, Toggle} \<Longrightarrow> logs (run e as) = logs e \<and> history (run e as) = history e"
proof (induction as arbitrary: e)
  case Nil
  then show ?case by simp
next
  case (Cons a as)
  then have "a = Start \<or> a = Stop \<or> a = Toggle" and "set as \<subseteq> {Start, Stop, Toggle}" by auto
  then show ?case
    using Cons.IH[of "step a e"]
    by (auto simp: start_def stop_def toggle_def setIsRunning_def rerender_fields)
qed

text \<open>
  C9: in any state reached from the initial one in which the component is not running,
  \<open>stop\<close> returns the state as it is, every field included; and as long as no timer
  callback has run, the log and the history are the empty list.
\<close>

theorem stop_idle_noop:
  "(\<not> isRunning (run initial as) \<longrightarrow> stop (run initial as) = run initial as) \<and>
   (set as \<subseteq> {Start, Stop, Toggle} \<longrightarrow>
      logs (run initial as) = [] \<and> history (run initial as) = [])"
  using stop_idle[OF run_consistent[of as]] no_tick_buffers[of as initial]
  by (simp add: initial_def)

theorem stop_idle_noop_witness:
  "\<not> isRunning (run initial [Start, Stop]) \<and>
   intervalRef (run initial [Start, Stop]) = Some 1 \<and>
   stop (run initial [Start, Stop]) = run initial [Start, Stop] \<and>
   set [Start, Stop] \<subseteq> {Start, Stop, Toggle} \<and>
   logs (run initial [Start, Stop]) = [] \<and>
   history (run initial [Start, Stop]) = []"
proof -
  have r: "\<not> isRunning (run initial [Start, Stop])"
    and i: "intervalRef (run initial [Start, Stop]) = Some 1"
    by (simp_all add: engine_defs)
  have s: "set [Start, Stop] \<subseteq> {Start, Stop, Toggle}" by simp
  show ?thesis
    using stop_idle_noop [of "[Start, Stop]"] r i s by blast
qed

end
